theory Spec2Isabelle
  imports Main
begin

section \<open>Slack reply delivery: native streaming with discrete fallback\<close>

text \<open>
  A shallow embedding of \<^verbatim>\<open>src/slack/streaming.ts\<close> (the stream session) and of the
  closures of \<^verbatim>\<open>dispatchPreparedSlackMessage\<close> (the delivery router).  JavaScript strings
  are modelled as \<^typ>\<open>string\<close>; every asynchronous call is awaited in sequence by the
  source, so the model is sequential.  The Slack client is an external collaborator: each
  call to it is recorded in a trace, and a \<open>transport\<close> decides, from the trace so far and
  the call, whether that call throws.
\<close>

subsection \<open>Strings\<close>

text \<open>\<^verbatim>\<open>String.prototype.trim\<close> on the white space and line terminators that fit a
  \<^typ>\<open>char\<close>: TAB, LF, VT, FF, CR, SPACE and NBSP.\<close>

definition isWhiteSpace :: "char \<Rightarrow> bool" where
  "isWhiteSpace c =
     (c = CHR 0x09 \<or> c = CHR 0x0A \<or> c = CHR 0x0B \<or> c = CHR 0x0C \<or> c = CHR 0x0D
      \<or> c = CHR 0x20 \<or> c = CHR 0xA0)"

definition trim :: "string \<Rightarrow> string" where
  "trim s = rev (dropWhile isWhiteSpace (rev (dropWhile isWhiteSpace s)))"

text \<open>\<^verbatim>\<open>s.startsWith(p)\<close> and \<^verbatim>\<open>s.slice(n)\<close> for \<open>0 \<le> n\<close>.\<close>

definition startsWith :: "string \<Rightarrow> string \<Rightarrow> bool" where
  "startsWith s p = (take (length p) s = p)"

definition slice :: "string \<Rightarrow> nat \<Rightarrow> string" where
  "slice s n = drop n s"

text \<open>\<^verbatim>\<open>Boolean(x)\<close> for an optional string: present and not empty.\<close>

fun truthy :: "string option \<Rightarrow> bool" where
  "truthy None = False"
| "truthy (Some s) = (if s = [] then False else True)"

subsection \<open>Payloads, transport calls and errors\<close>

text \<open>The field \<^verbatim>\<open>text\<close> of the source is \<open>replyText\<close> here.\<close>

record ReplyPayload =
  replyText :: "string option"
  mediaUrl :: "string option"
  mediaUrls :: "string list option"

datatype ReplyDispatchKind = Tool | Block | Final

datatype ReplyToMode = ModeOff | ModeFirst | ModeAll

text \<open>
  The calls that reach the Slack client.  \<open>ChatStream channel thread_ts\<close> is
  \<^verbatim>\<open>client.chatStream({channel, thread_ts})\<close> (the router never passes a buffer size);
  \<open>StreamerAppend i t\<close> and \<open>StreamerStop i t\<close> are \<^verbatim>\<open>streamer.append({markdown_text: t})\<close>
  and \<^verbatim>\<open>streamer.stop(...)\<close> on the \<open>i\<close>-th streamer created; \<open>SendMessage p t\<close> is the call
  \<^verbatim>\<open>deliverReplies({replies: [p], ..., replyThreadTs: t})\<close>, the discrete delivery of
  payload \<open>p\<close> with thread attachment \<open>t\<close>.
\<close>

datatype call =
    ChatStream string string
  | StreamerAppend nat string
  | StreamerStop nat "string option"
  | SendMessage ReplyPayload "string option"

datatype error = TransportError | GeneratorError

type_synonym transport = "call list \<Rightarrow> call \<Rightarrow> bool"

text \<open>One call to the client: it is recorded, and it throws when the transport says so.\<close>

definition invoke :: "transport \<Rightarrow> call \<Rightarrow> call list \<Rightarrow> (error + unit) \<times> call list" where
  "invoke tp c tr = (if tp tr c then Inl TransportError else Inr (), tr @ [c])"

text \<open>What a test double would have recorded, per operation.\<close>

fun startsOf :: "call list \<Rightarrow> (string \<times> string) list" where
  "startsOf [] = []"
| "startsOf (ChatStream c t # cs) = (c, t) # startsOf cs"
| "startsOf (_ # cs) = startsOf cs"

fun appendsOf :: "call list \<Rightarrow> (nat \<times> string) list" where
  "appendsOf [] = []"
| "appendsOf (StreamerAppend i t # cs) = (i, t) # appendsOf cs"
| "appendsOf (_ # cs) = appendsOf cs"

fun stopsOf :: "call list \<Rightarrow> (nat \<times> string option) list" where
  "stopsOf [] = []"
| "stopsOf (StreamerStop i t # cs) = (i, t) # stopsOf cs"
| "stopsOf (_ # cs) = stopsOf cs"

fun sendsOf :: "call list \<Rightarrow> (ReplyPayload \<times> string option) list" where
  "sendsOf [] = []"
| "sendsOf (SendMessage p t # cs) = (p, t) # sendsOf cs"
| "sendsOf (_ # cs) = sendsOf cs"

subsection \<open>The stream session (\<^verbatim>\<open>streaming.ts\<close>)\<close>

text \<open>The \<open>streamer\<close> field holds the identity of the streamer object: the number of
  streamers created before it.\<close>

record SlackStreamSession =
  streamer :: nat
  channel :: string
  threadTs :: string
  stopped :: bool

definition appendSlackStream ::
  "transport \<Rightarrow> SlackStreamSession \<Rightarrow> string \<Rightarrow> call list \<Rightarrow> (error + unit) \<times> call list" where
  "appendSlackStream tp session txt tr =
     (if txt = [] \<or> stopped session then (Inr (), tr)
      else invoke tp (StreamerAppend (streamer session) txt) tr)"

text \<open>The session object is mutated in place by the source; the model returns it.\<close>

definition stopSlackStream ::
  "transport \<Rightarrow> SlackStreamSession \<Rightarrow> string option \<Rightarrow> call list
     \<Rightarrow> (error + unit) \<times> SlackStreamSession \<times> call list" where
  "stopSlackStream tp session txt tr =
     (if stopped session then (Inr (), session, tr)
      else
        (let session' = session\<lparr>stopped := True\<rparr>;
             r = invoke tp (StreamerStop (streamer session) (if truthy txt then txt else None)) tr
         in (fst r, session', snd r)))"

definition startSlackStream ::
  "transport \<Rightarrow> string \<Rightarrow> string \<Rightarrow> string option \<Rightarrow> call list
     \<Rightarrow> (error + SlackStreamSession) \<times> call list" where
  "startSlackStream tp chan thread txt tr =
     (case invoke tp (ChatStream chan thread) tr of
        (Inl e, tr1) \<Rightarrow> (Inl e, tr1)
      | (Inr _, tr1) \<Rightarrow>
          (let session = \<lparr>streamer = length (startsOf tr), channel = chan,
                           threadTs = thread, stopped = False\<rparr>
           in case txt of
                None \<Rightarrow> (Inr session, tr1)
              | Some t \<Rightarrow>
                  (if t = [] then (Inr session, tr1)
                   else (case appendSlackStream tp session t tr1 of
                           (Inl e, tr2) \<Rightarrow> (Inl e, tr2)
                         | (Inr _, tr2) \<Rightarrow> (Inr session, tr2)))))"

subsection \<open>The delta resolver (\<^verbatim>\<open>resolveStreamDelta\<close>)\<close>

text \<open>The closure reads and writes the variable \<^verbatim>\<open>streamedText\<close>; the model takes it as
  first argument and returns the delta together with its new value.\<close>

definition resolveStreamDelta :: "string \<Rightarrow> string \<Rightarrow> string \<times> string" where
  "resolveStreamDelta streamedText nextText =
     (if streamedText = [] then (nextText, nextText)
      else if nextText = streamedText then ([], streamedText)
      else if startsWith nextText streamedText
        then (slice nextText (length streamedText), nextText)
      else if startsWith streamedText nextText then ([], nextText)
      else (CHR 0x0A # nextText, streamedText @ CHR 0x0A # nextText))"

subsection \<open>The thread-target planner\<close>

text \<open>
  Modelled from the spec: \<^verbatim>\<open>resolveSlackThreadTs\<close> and \<^verbatim>\<open>createSlackReplyDeliveryPlan\<close>
  live in \<^verbatim>\<open>../replies.js\<close>, which is not among the sources.  Mode \<open>off\<close> resolves
  nothing; mode \<open>all\<close> resolves the incoming thread identifier, falling back to the
  triggering message's own identifier; mode \<open>first\<close> resolves that identifier only
  while nothing has been replied.
\<close>

definition resolveSlackThreadTs ::
  "ReplyToMode \<Rightarrow> string option \<Rightarrow> string option \<Rightarrow> bool \<Rightarrow> string option" where
  "resolveSlackThreadTs mode incoming messageTs replied =
     (case mode of
        ModeOff \<Rightarrow> None
      | ModeAll \<Rightarrow> (case incoming of Some t \<Rightarrow> Some t | None \<Rightarrow> messageTs)
      | ModeFirst \<Rightarrow>
          (if replied then None
           else (case incoming of Some t \<Rightarrow> Some t | None \<Rightarrow> messageTs)))"

subsection \<open>The delivery router (closures of \<^verbatim>\<open>dispatchPreparedSlackMessage\<close>)\<close>

text \<open>
  What is fixed for one response.  \<open>streaming\<close> is \<^verbatim>\<open>account.config.streaming === true\<close>,
  \<open>messageChannel\<close> is \<^verbatim>\<open>message.channel\<close>, and \<open>isSilentReplyText\<close> stands for
  \<^verbatim>\<open>isSilentReplyText(_, SILENT_REPLY_TOKEN)\<close> of \<^verbatim>\<open>auto-reply/tokens.js\<close>, which is not
  among the sources and is therefore a parameter.
\<close>

record config =
  streaming :: bool
  replyToMode :: ReplyToMode
  incomingThreadTs :: "string option"
  messageTs :: "string option"
  messageChannel :: string
  isSilentReplyText :: "string \<Rightarrow> bool"

text \<open>The variables the closures share (\<^verbatim>\<open>hasReplied\<close> is \<^verbatim>\<open>hasRepliedRef.value\<close>), and
  the trace of client calls.\<close>

record router =
  streamSession :: "SlackStreamSession option"
  streamFailed :: bool
  streamedText :: string
  hasReplied :: bool
  calls :: "call list"

definition initialRouter :: router where
  "initialRouter =
     \<lparr>streamSession = None, streamFailed = False, streamedText = [],
      hasReplied = False, calls = []\<rparr>"

definition hasMedia :: "ReplyPayload \<Rightarrow> bool" where
  "hasMedia payload =
     (truthy (mediaUrl payload)
      \<or> (case mediaUrls payload of None \<Rightarrow> False | Some us \<Rightarrow> 0 < length us))"

text \<open>
  Modelled from the spec: the plan built by \<^verbatim>\<open>createSlackReplyDeliveryPlan\<close>
  (\<^verbatim>\<open>../replies.js\<close>, not among the sources).  \<^verbatim>\<open>nextThreadTs()\<close> is a pure function of the
  current state, and \<^verbatim>\<open>markSent()\<close>, the only mutation, sets the flag.
\<close>

definition nextThreadTs :: "config \<Rightarrow> router \<Rightarrow> string option" where
  "nextThreadTs cfg st =
     resolveSlackThreadTs (replyToMode cfg) (incomingThreadTs cfg) (messageTs cfg) (hasReplied st)"

definition markSent :: "router \<Rightarrow> router" where
  "markSent st = st\<lparr>hasReplied := True\<rparr>"

definition useStreaming :: "config \<Rightarrow> bool" where
  "useStreaming cfg =
     (streaming cfg
      \<and> truthy (resolveSlackThreadTs (replyToMode cfg) (incomingThreadTs cfg) (messageTs cfg) False))"

text \<open>The \<^verbatim>\<open>try / catch / finally\<close> of the source: whatever \<^verbatim>\<open>stopSlackStream\<close> does, the
  session and the tracked text are cleared, and a failure only sets \<open>streamFailed\<close>.\<close>

definition stopStreamIfActive :: "transport \<Rightarrow> router \<Rightarrow> router" where
  "stopStreamIfActive tp st =
     (case streamSession st of
        None \<Rightarrow> st
      | Some session \<Rightarrow>
          (case stopSlackStream tp session None (calls st) of
             (Inl e, s', tr) \<Rightarrow>
               st\<lparr>streamSession := None, streamFailed := True, streamedText := [], calls := tr\<rparr>
           | (Inr u, s', tr) \<Rightarrow>
               st\<lparr>streamSession := None, streamedText := [], calls := tr\<rparr>))"

text \<open>
  Modelled from the spec: \<^verbatim>\<open>deliverReplies\<close> lives in \<^verbatim>\<open>../replies.js\<close>, which is not among
  the sources; it sends the payload as one standalone message with \<open>replyThreadTs\<close> as its
  thread attachment, and may fail.  \<^verbatim>\<open>markSent\<close> runs only after it returned.
\<close>

definition deliverNormal ::
  "transport \<Rightarrow> ReplyPayload \<Rightarrow> string option \<Rightarrow> router \<Rightarrow> (error + unit) \<times> router" where
  "deliverNormal tp payload replyThreadTs st =
     (case invoke tp (SendMessage payload replyThreadTs) (calls st) of
        (Inl e, tr) \<Rightarrow> (Inl e, st\<lparr>calls := tr\<rparr>)
      | (Inr u, tr) \<Rightarrow> (Inr (), markSent (st\<lparr>calls := tr\<rparr>)))"

text \<open>\<^verbatim>\<open>replyThreadTs?.trim() || undefined\<close> and \<^verbatim>\<open>payload.text?.trim() ?? ""\<close>.\<close>

definition effectiveThreadTs :: "string option \<Rightarrow> string option" where
  "effectiveThreadTs replyThreadTs =
     (case replyThreadTs of
        None \<Rightarrow> None
      | Some t \<Rightarrow> (if trim t = [] then None else Some (trim t)))"

definition trimmedText :: "ReplyPayload \<Rightarrow> string" where
  "trimmedText payload = (case replyText payload of None \<Rightarrow> [] | Some t \<Rightarrow> trim t)"

definition canStreamText :: "config \<Rightarrow> router \<Rightarrow> ReplyPayload \<Rightarrow> ReplyDispatchKind \<Rightarrow> bool" where
  "canStreamText cfg st payload kind =
     (useStreaming cfg
      \<and> \<not> streamFailed st
      \<and> kind \<noteq> Tool
      \<and> \<not> hasMedia payload
      \<and> truthy (effectiveThreadTs (nextThreadTs cfg st))
      \<and> truthy (Some (trimmedText payload))
      \<and> \<not> isSilentReplyText cfg (trimmedText payload))"

text \<open>The first branch of the \<^verbatim>\<open>try\<close> block: stop what is active, start a stream seeded
  with the text, and record the text.  When \<^verbatim>\<open>startSlackStream\<close> throws, neither
  assignment has happened.\<close>

definition startNewStream ::
  "transport \<Rightarrow> config \<Rightarrow> string \<Rightarrow> string \<Rightarrow> router \<Rightarrow> (error + unit) \<times> router" where
  "startNewStream tp cfg thread txt st =
     (let st1 = stopStreamIfActive tp st in
      case startSlackStream tp (messageChannel cfg) thread (Some txt) (calls st1) of
        (Inl e, tr) \<Rightarrow> (Inl e, st1\<lparr>calls := tr\<rparr>)
      | (Inr session, tr) \<Rightarrow>
          (Inr (), st1\<lparr>streamSession := Some session, streamedText := txt, calls := tr\<rparr>))"

text \<open>The second branch: append the delta to the active session, if there is one.\<close>

definition appendDelta ::
  "transport \<Rightarrow> SlackStreamSession \<Rightarrow> string \<Rightarrow> router \<Rightarrow> (error + unit) \<times> router" where
  "appendDelta tp session txt st =
     (let d = resolveStreamDelta (streamedText st) txt;
          st1 = st\<lparr>streamedText := snd d\<rparr>
      in if fst d = [] then (Inr (), st1)
         else (case appendSlackStream tp session (fst d) (calls st1) of
                 (r, tr) \<Rightarrow> (r, st1\<lparr>calls := tr\<rparr>)))"

text \<open>The body of the \<^verbatim>\<open>try\<close> block up to \<^verbatim>\<open>replyPlan.markSent()\<close>.\<close>

definition streamAttempt ::
  "transport \<Rightarrow> config \<Rightarrow> string \<Rightarrow> string \<Rightarrow> router \<Rightarrow> (error + unit) \<times> router" where
  "streamAttempt tp cfg thread txt st =
     (case streamSession st of
        None \<Rightarrow> startNewStream tp cfg thread txt st
      | Some session \<Rightarrow>
          (if threadTs session = thread then appendDelta tp session txt st
           else startNewStream tp cfg thread txt st))"

definition deliverWithOptionalStreaming ::
  "transport \<Rightarrow> config \<Rightarrow> ReplyPayload \<Rightarrow> ReplyDispatchKind \<Rightarrow> router
     \<Rightarrow> (error + unit) \<times> router" where
  "deliverWithOptionalStreaming tp cfg payload kind st =
     (let replyThreadTs = nextThreadTs cfg st in
      if canStreamText cfg st payload kind then
        (case effectiveThreadTs replyThreadTs of
           None \<Rightarrow> deliverNormal tp payload replyThreadTs (stopStreamIfActive tp st)
         | Some thread \<Rightarrow>
             (case streamAttempt tp cfg thread (trimmedText payload) st of
                (Inr u, st1) \<Rightarrow> (Inr (), markSent st1)
              | (Inl e, st1) \<Rightarrow>
                  deliverNormal tp payload replyThreadTs
                    (stopStreamIfActive tp (st1\<lparr>streamFailed := True\<rparr>))))
      else deliverNormal tp payload replyThreadTs (stopStreamIfActive tp st))"

subsection \<open>One response\<close>

text \<open>
  Modelled from the spec: \<^verbatim>\<open>dispatchInboundMessage\<close> and the reply dispatcher are not among
  the sources.  Reply events are delivered strictly in the order the generator emits
  them, and a delivery error is logged and the remaining events are still processed.
\<close>

fun deliverAll ::
  "transport \<Rightarrow> config \<Rightarrow> (ReplyPayload \<times> ReplyDispatchKind) list \<Rightarrow> router \<Rightarrow> router" where
  "deliverAll tp cfg [] st = st"
| "deliverAll tp cfg (ev # evs) st =
     deliverAll tp cfg evs (snd (deliverWithOptionalStreaming tp cfg (fst ev) (snd ev) st))"

text \<open>The generator either completes or throws after the events it has emitted.\<close>

datatype outcome = Completed | Threw

text \<open>\<^verbatim>\<open>try { return await dispatchInboundMessage(...) } finally { ...; await stopStreamIfActive() }\<close>\<close>

definition dispatchResult ::
  "transport \<Rightarrow> config \<Rightarrow> (ReplyPayload \<times> ReplyDispatchKind) list \<Rightarrow> outcome \<Rightarrow> router
     \<Rightarrow> (error + unit) \<times> router" where
  "dispatchResult tp cfg evs oc st =
     (let st1 = stopStreamIfActive tp (deliverAll tp cfg evs st) in
      case oc of
        Completed \<Rightarrow> (Inr (), st1)
      | Threw \<Rightarrow> (Inl GeneratorError, st1))"

subsection \<open>Discrete sends under the plan\<close>

text \<open>
  The discrete sends of a run of events in which nothing is streamed and no session is
  active, as the thread-target plan prescribes them: each payload is sent to the target
  resolved at the current value of the flag, and the flag is set once a send has
  returned.  \<open>tr\<close> is the trace before the first of these sends.  The router's actual
  sends are compared with this list below.
\<close>

fun fallbackSends ::
  "transport \<Rightarrow> config \<Rightarrow> bool \<Rightarrow> call list \<Rightarrow> (ReplyPayload \<times> ReplyDispatchKind) list
     \<Rightarrow> (ReplyPayload \<times> string option) list" where
  "fallbackSends tp cfg replied tr [] = []"
| "fallbackSends tp cfg replied tr (ev # evs) =
     (let target = resolveSlackThreadTs (replyToMode cfg) (incomingThreadTs cfg) (messageTs cfg)
                     replied;
          c = SendMessage (fst ev) target
      in (fst ev, target)
           # fallbackSends tp cfg (if tp tr c then replied else True) (tr @ [c]) evs)"

subsection \<open>The invariant of the router\<close>

text \<open>While the router holds a session, that session has not been stopped; while it
  holds none, the tracked text is empty.\<close>

definition consistent :: "router \<Rightarrow> bool" where
  "consistent st =
     (case streamSession st of None \<Rightarrow> streamedText st = [] | Some s \<Rightarrow> \<not> stopped s)"

subsection \<open>The scenarios of \<^verbatim>\<open>monitor.streaming.test.ts\<close>\<close>

text \<open>A direct message \<^verbatim>\<open>{ts: "123", channel: "C1"}\<close> outside any thread, with streaming
  switched on; none of the texts of the scenarios is the silent reply token.\<close>

definition testConfig :: "ReplyToMode \<Rightarrow> config" where
  "testConfig mode =
     \<lparr>streaming = True, replyToMode = mode, incomingThreadTs = None,
      messageTs = Some ''123'', messageChannel = ''C1'',
      isSilentReplyText = (\<lambda>t. False)\<rparr>"

definition textPayload :: "string \<Rightarrow> ReplyPayload" where
  "textPayload t = \<lparr>replyText = Some t, mediaUrl = None, mediaUrls = None\<rparr>"

definition neverFails :: transport where
  "neverFails tr c = False"

text \<open>\<^verbatim>\<open>chatStreamAppendMock\<close> throwing on its first call only.\<close>

definition firstAppendFails :: transport where
  "firstAppendFails tr c =
     (case c of StreamerAppend i t \<Rightarrow> appendsOf tr = [] | _ \<Rightarrow> False)"

text \<open>A client whose \<^verbatim>\<open>streamer.stop\<close> always throws.\<close>

definition stopFails :: transport where
  "stopFails tr c = (case c of StreamerStop i t \<Rightarrow> True | _ \<Rightarrow> False)"

text \<open>A session as \<^verbatim>\<open>startSlackStream\<close> returns it in the first scenario.\<close>

definition testSession :: SlackStreamSession where
  "testSession = \<lparr>streamer = 0, channel = ''C1'', threadTs = ''123'', stopped = False\<rparr>"

text \<open>The router of the first scenario after its first block has been streamed.\<close>

definition streamingRouter :: router where
  "streamingRouter =
     \<lparr>streamSession = Some testSession, streamFailed = False, streamedText = ''first block'',
      hasReplied = True,
      calls = [ChatStream ''C1'' ''123'', StreamerAppend 0 ''first block'']\<rparr>"

section \<open>Properties\<close>

subsection \<open>The delta resolver\<close>

text \<open>
  C1.  For all strings \<open>a\<close> and \<open>b\<close>: the delta against an empty snapshot is the whole
  text, the delta of an unchanged text is empty, the delta of an extension \<open>a @ b\<close> of the
  snapshot \<open>a\<close> is the suffix \<open>b\<close>, and the delta of a text shrunk from \<open>a @ b\<close> to \<open>a\<close>
  is empty.
\<close>

theorem resolveDelta_laws:
  "fst (resolveStreamDelta [] a) = a
   \<and> fst (resolveStreamDelta a a) = []
   \<and> fst (resolveStreamDelta a (a @ b)) = b
   \<and> fst (resolveStreamDelta (a @ b) a) = []"
  by (simp add: resolveStreamDelta_def startsWith_def slice_def)

text \<open>
  C2, as the code has it.  When the snapshot is not empty and the snapshot and the next
  text differ with neither a prefix of the other, the delta is a newline followed by the
  next text, and the tracked snapshot becomes the old snapshot, a newline and the next
  text.
\<close>

theorem divergent_delta:
  assumes "previous \<noteq> []" and "next \<noteq> previous"
    and "\<not> startsWith next previous" and "\<not> startsWith previous next"
  shows "resolveStreamDelta previous next = (CHR 0x0A # next, previous @ CHR 0x0A # next)"
  using assms by (simp add: resolveStreamDelta_def)

theorem divergent_delta_witness:
  "resolveStreamDelta ''a'' ''b'' = (CHR 0x0A # ''b'', ''a'' @ CHR 0x0A # ''b'')"
  using divergent_delta [of "''a''" "''b''"] by (simp add: startsWith_def)

text \<open>C2 as stated fails at the snapshot \<open>''a''\<close> and the next text \<open>''b''\<close>: the tracked
  snapshot is not replaced by \<open>''b''\<close>.\<close>

theorem divergent_snapshot_counterexample:
  "\<not> (''a'' \<noteq> [] \<and> ''b'' \<noteq> ''a'' \<and> \<not> startsWith ''b'' ''a'' \<and> \<not> startsWith ''a'' ''b''
      \<longrightarrow> resolveStreamDelta ''a'' ''b'' = (CHR 0x0A # ''b'', ''b''))"
  by (simp add: resolveStreamDelta_def startsWith_def)

subsection \<open>The stream session\<close>

text \<open>
  C6.  Appending an empty text, or appending to a stopped session, makes no client call
  and changes nothing; stopping a stopped session likewise.  Stopping a session that is
  not stopped sets its flag and makes exactly one \<^verbatim>\<open>streamer.stop\<close> call.  After any stop
  the flag is set, and every later append or stop is a no-op.
\<close>

theorem stream_session_laws:
  "appendSlackStream tp s [] tr = (Inr (), tr)
   \<and> (stopped s \<longrightarrow>
        appendSlackStream tp s txt tr = (Inr (), tr)
        \<and> stopSlackStream tp s t tr = (Inr (), s, tr))
   \<and> (\<not> stopped s \<longrightarrow>
        snd (stopSlackStream tp s t tr)
          = (s\<lparr>stopped := True\<rparr>,
             tr @ [StreamerStop (streamer s) (if truthy t then t else None)]))
   \<and> (let s' = fst (snd (stopSlackStream tp s t tr)) in
        stopped s'
        \<and> appendSlackStream tp2 s' txt2 tr2 = (Inr (), tr2)
        \<and> stopSlackStream tp2 s' t2 tr2 = (Inr (), s', tr2))"
  by (simp add: appendSlackStream_def stopSlackStream_def invoke_def Let_def)

theorem stream_session_laws_witness:
  "stopped (testSession\<lparr>stopped := True\<rparr>)
   \<and> appendSlackStream neverFails (testSession\<lparr>stopped := True\<rparr>) ''x'' [] = (Inr (), [])
   \<and> stopSlackStream neverFails (testSession\<lparr>stopped := True\<rparr>) None []
        = (Inr (), testSession\<lparr>stopped := True\<rparr>, [])
   \<and> \<not> stopped testSession
   \<and> snd (stopSlackStream neverFails testSession None [])
        = (testSession\<lparr>stopped := True\<rparr>, [StreamerStop 0 None])"
  using stream_session_laws [of neverFails "testSession\<lparr>stopped := True\<rparr>" "[]" "''x''" None]
    stream_session_laws [of neverFails testSession "[]" "''x''" None]
  by (simp add: testSession_def)

text \<open>
  C10.  \<^verbatim>\<open>stopSlackStream\<close> sets the flag before it calls \<^verbatim>\<open>streamer.stop\<close>: when that call
  throws, the error reaches the caller, the session is stopped all the same, and every
  later append or stop on it returns without a client call.
\<close>

theorem stop_throws_session_inert:
  assumes "\<not> stopped s"
    and "tp tr (StreamerStop (streamer s) (if truthy t then t else None))"
  shows "stopSlackStream tp s t tr
           = (Inl TransportError, s\<lparr>stopped := True\<rparr>,
              tr @ [StreamerStop (streamer s) (if truthy t then t else None)])
         \<and> appendSlackStream tp2 (fst (snd (stopSlackStream tp s t tr))) txt2 tr2 = (Inr (), tr2)
         \<and> stopSlackStream tp2 (fst (snd (stopSlackStream tp s t tr))) t2 tr2
             = (Inr (), s\<lparr>stopped := True\<rparr>, tr2)"
  using assms by (simp add: appendSlackStream_def stopSlackStream_def invoke_def Let_def)

theorem stop_throws_session_inert_witness:
  "stopSlackStream stopFails testSession None []
     = (Inl TransportError, testSession\<lparr>stopped := True\<rparr>, [StreamerStop 0 None])
   \<and> appendSlackStream neverFails (fst (snd (stopSlackStream stopFails testSession None [])))
        ''more'' [StreamerStop 0 None] = (Inr (), [StreamerStop 0 None])
   \<and> stopSlackStream neverFails (fst (snd (stopSlackStream stopFails testSession None [])))
        None [StreamerStop 0 None]
        = (Inr (), testSession\<lparr>stopped := True\<rparr>, [StreamerStop 0 None])"
proof -
  have running: "\<not> stopped testSession"
    by (simp add: testSession_def)
  have ident: "streamer testSession = 0"
    by (simp add: testSession_def)
  have throws: "stopFails [] (StreamerStop (streamer testSession) (if truthy None then None else None))"
    by (simp add: stopFails_def)
  from stop_throws_session_inert [of testSession stopFails "[]" None neverFails "''more''"
      "[StreamerStop 0 None]" None, OF running throws]
  show ?thesis by (auto simp add: ident)
qed

subsection \<open>Facts about the router\<close>

lemma startsOf_append [simp]: "startsOf (xs @ ys) = startsOf xs @ startsOf ys"
  by (induction xs rule: startsOf.induct) simp_all

lemma appendsOf_append [simp]: "appendsOf (xs @ ys) = appendsOf xs @ appendsOf ys"
  by (induction xs rule: appendsOf.induct) simp_all

lemma stopsOf_append [simp]: "stopsOf (xs @ ys) = stopsOf xs @ stopsOf ys"
  by (induction xs rule: stopsOf.induct) simp_all

lemma sendsOf_append [simp]: "sendsOf (xs @ ys) = sendsOf xs @ sendsOf ys"
  by (induction xs rule: sendsOf.induct) simp_all

lemma trim_Nil [simp]: "trim [] = []"
  by (simp add: trim_def)

text \<open>Facts about \<^verbatim>\<open>stopStreamIfActive\<close>.\<close>

lemma stopStreamIfActive_idle:
  "streamSession st = None \<Longrightarrow> stopStreamIfActive tp st = st"
  by (simp add: stopStreamIfActive_def)

lemma stopStreamIfActive_active:
  assumes "streamSession st = Some s" and "\<not> stopped s"
  shows "stopStreamIfActive tp st =
           st\<lparr>streamSession := None,
              streamFailed := (streamFailed st \<or> tp (calls st) (StreamerStop (streamer s) None)),
              streamedText := [],
              calls := calls st @ [StreamerStop (streamer s) None]\<rparr>"
  using assms by (simp add: stopStreamIfActive_def stopSlackStream_def invoke_def Let_def)

lemma stopStreamIfActive_session [simp]:
  "streamSession (stopStreamIfActive tp st) = None"
  by (simp add: stopStreamIfActive_def stopSlackStream_def invoke_def Let_def
      split: option.splits)

lemma stopStreamIfActive_hasReplied [simp]:
  "hasReplied (stopStreamIfActive tp st) = hasReplied st"
  by (simp add: stopStreamIfActive_def stopSlackStream_def invoke_def Let_def
      split: option.splits)

lemma stopStreamIfActive_failed:
  "streamFailed st \<Longrightarrow> streamFailed (stopStreamIfActive tp st)"
  by (simp add: stopStreamIfActive_def stopSlackStream_def invoke_def Let_def
      split: option.splits)

lemma stopStreamIfActive_text:
  "streamedText (stopStreamIfActive tp st)
     = (case streamSession st of None \<Rightarrow> streamedText st | Some s \<Rightarrow> [])"
  by (simp add: stopStreamIfActive_def stopSlackStream_def invoke_def Let_def
      split: option.splits)

lemma stopStreamIfActive_observed [simp]:
  "startsOf (calls (stopStreamIfActive tp st)) = startsOf (calls st)"
  "appendsOf (calls (stopStreamIfActive tp st)) = appendsOf (calls st)"
  "sendsOf (calls (stopStreamIfActive tp st)) = sendsOf (calls st)"
  by (simp_all add: stopStreamIfActive_def stopSlackStream_def invoke_def Let_def
      split: option.splits)

text \<open>Facts about \<^verbatim>\<open>deliverNormal\<close>.\<close>

lemma deliverNormal_calls [simp]:
  "calls (snd (deliverNormal tp p thr st)) = calls st @ [SendMessage p thr]"
  by (simp add: deliverNormal_def invoke_def markSent_def)

lemma deliverNormal_fields [simp]:
  "streamSession (snd (deliverNormal tp p thr st)) = streamSession st"
  "streamFailed (snd (deliverNormal tp p thr st)) = streamFailed st"
  "streamedText (snd (deliverNormal tp p thr st)) = streamedText st"
  by (simp_all add: deliverNormal_def invoke_def markSent_def)

lemma deliverNormal_hasReplied:
  "hasReplied st \<Longrightarrow> hasReplied (snd (deliverNormal tp p thr st))"
  by (simp add: deliverNormal_def invoke_def markSent_def)

text \<open>A payload that is not eligible for streaming is delivered discretely, after the
  active session, if any, has been stopped.\<close>

lemma deliver_without_streaming:
  "\<not> canStreamText cfg st p k \<Longrightarrow>
     deliverWithOptionalStreaming tp cfg p k st
       = deliverNormal tp p (nextThreadTs cfg st) (stopStreamIfActive tp st)"
  by (simp add: deliverWithOptionalStreaming_def)

lemma failed_cannot_stream: "streamFailed st \<Longrightarrow> \<not> canStreamText cfg st p k"
  by (simp add: canStreamText_def)

lemma unthreaded_cannot_stream: "nextThreadTs cfg st = None \<Longrightarrow> \<not> canStreamText cfg st p k"
  by (simp add: canStreamText_def effectiveThreadTs_def)

lemma nextThreadTs_ModeAll:
  "replyToMode cfg = ModeAll \<Longrightarrow> nextThreadTs cfg st = nextThreadTs cfg st'"
  by (simp add: nextThreadTs_def resolveSlackThreadTs_def)

lemma nextThreadTs_ModeOff:
  "replyToMode cfg = ModeOff \<Longrightarrow> nextThreadTs cfg st = None"
  by (simp add: nextThreadTs_def resolveSlackThreadTs_def)

lemma deliverAll_failed:
  "streamFailed st \<Longrightarrow>
     streamFailed (deliverAll tp cfg evs st)
     \<and> startsOf (calls (deliverAll tp cfg evs st)) = startsOf (calls st)
     \<and> appendsOf (calls (deliverAll tp cfg evs st)) = appendsOf (calls st)
     \<and> map fst (sendsOf (calls (deliverAll tp cfg evs st)))
         = map fst (sendsOf (calls st)) @ map fst evs"
proof (induction evs arbitrary: st)
  case Nil
  then show ?case by simp
next
  case (Cons ev evs)
  let ?st1 = "snd (deliverWithOptionalStreaming tp cfg (fst ev) (snd ev) st)"
  have step: "?st1 = snd (deliverNormal tp (fst ev) (nextThreadTs cfg st) (stopStreamIfActive tp st))"
    using Cons.prems by (simp add: deliver_without_streaming failed_cannot_stream)
  have "streamFailed ?st1"
    using Cons.prems by (simp add: step stopStreamIfActive_failed)
  from Cons.IH [OF this] show ?case
    by (simp add: step)
qed

text \<open>The definitions a concrete run unfolds.\<close>

lemmas router_defs =
  dispatchResult_def deliverWithOptionalStreaming_def streamAttempt_def startNewStream_def
  appendDelta_def canStreamText_def useStreaming_def nextThreadTs_def resolveSlackThreadTs_def
  effectiveThreadTs_def trimmedText_def hasMedia_def deliverNormal_def markSent_def
  stopStreamIfActive_def startSlackStream_def appendSlackStream_def stopSlackStream_def
  invoke_def resolveStreamDelta_def startsWith_def slice_def trim_def isWhiteSpace_def
  initialRouter_def testConfig_def textPayload_def firstAppendFails_def neverFails_def Let_def

text \<open>The invariant holds initially and every delivery keeps it.\<close>

lemma consistent_initial: "consistent initialRouter"
  by (simp add: consistent_def initialRouter_def)

lemma consistent_stop: "consistent st \<Longrightarrow> consistent (stopStreamIfActive tp st)"
  by (simp add: consistent_def stopStreamIfActive_text split: option.splits)

lemma consistent_deliverNormal:
  "consistent st \<Longrightarrow> consistent (snd (deliverNormal tp p thr st))"
  by (simp add: consistent_def split: option.splits)

lemma consistent_markSent: "consistent st \<Longrightarrow> consistent (markSent st)"
  by (simp add: consistent_def markSent_def split: option.splits)

lemma consistent_flag: "consistent st \<Longrightarrow> consistent (st\<lparr>streamFailed := b\<rparr>)"
  by (simp add: consistent_def split: option.splits)

lemma startSlackStream_running:
  "startSlackStream tp c t txt tr = (Inr s, tr') \<Longrightarrow> \<not> stopped s"
  by (auto simp add: startSlackStream_def invoke_def Let_def
      split: if_splits option.splits prod.splits sum.splits)

lemma consistent_startNewStream:
  assumes "consistent st"
  shows "consistent (snd (startNewStream tp cfg thr txt st))"
proof -
  let ?st1 = "stopStreamIfActive tp st"
  have c1: "consistent ?st1" using assms by (rule consistent_stop)
  obtain r tr where start: "startSlackStream tp (messageChannel cfg) thr (Some txt) (calls ?st1) = (r, tr)"
    by (cases "startSlackStream tp (messageChannel cfg) thr (Some txt) (calls ?st1)")
  show ?thesis
  proof (cases r)
    case (Inl e)
    with start c1 show ?thesis
      by (simp add: startNewStream_def consistent_def)
  next
    case (Inr s)
    with start have "\<not> stopped s" by (auto dest: startSlackStream_running)
    with start Inr show ?thesis
      by (simp add: startNewStream_def consistent_def)
  qed
qed

lemma consistent_appendDelta:
  assumes "consistent st" and "streamSession st = Some s"
  shows "consistent (snd (appendDelta tp s txt st))"
  using assms by (simp add: appendDelta_def consistent_def Let_def split: prod.splits)

lemma consistent_streamAttempt:
  "consistent st \<Longrightarrow> consistent (snd (streamAttempt tp cfg thr txt st))"
  by (simp add: streamAttempt_def consistent_startNewStream consistent_appendDelta
      split: option.splits)

lemma consistent_step:
  assumes "consistent st"
  shows "consistent (snd (deliverWithOptionalStreaming tp cfg p k st))"
proof (cases "canStreamText cfg st p k")
  case False
  then show ?thesis
    using assms by (simp add: deliver_without_streaming consistent_deliverNormal consistent_stop)
next
  case True
  show ?thesis
  proof (cases "effectiveThreadTs (nextThreadTs cfg st)")
    case None
    with True show ?thesis
      using assms
      by (simp add: deliverWithOptionalStreaming_def consistent_deliverNormal consistent_stop)
  next
    case (Some thr)
    obtain r st1 where att: "streamAttempt tp cfg thr (trimmedText p) st = (r, st1)"
      by (cases "streamAttempt tp cfg thr (trimmedText p) st")
    have c1: "consistent st1"
      using consistent_streamAttempt [OF assms, of tp cfg thr "trimmedText p"] att by simp
    show ?thesis
    proof (cases r)
      case (Inl e)
      with True Some att c1 show ?thesis
        by (simp add: deliverWithOptionalStreaming_def consistent_deliverNormal
            consistent_stop consistent_flag)
    next
      case (Inr u)
      with True Some att c1 show ?thesis
        by (simp add: deliverWithOptionalStreaming_def consistent_markSent)
    qed
  qed
qed

lemma consistent_deliverAll:
  "consistent st \<Longrightarrow> consistent (deliverAll tp cfg evs st)"
  by (induction evs arbitrary: st) (simp_all add: consistent_step)

subsection \<open>Teardown\<close>

text \<open>
  C4.  Whatever the client does and whether the generator completes or throws, once the
  events it emitted have been processed the router holds no session and no tracked text;
  a session still active at that point receives one \<^verbatim>\<open>streamer.stop\<close> call; stopping again
  changes nothing; and the generator's exception is the result only together with that
  cleaned state.
\<close>

theorem teardown_guarantee:
  "(let mid = deliverAll tp cfg evs initialRouter;
        res = dispatchResult tp cfg evs oc initialRouter;
        fin = snd res
    in streamSession fin = None
       \<and> streamedText fin = []
       \<and> fst res = (case oc of Completed \<Rightarrow> Inr () | Threw \<Rightarrow> Inl GeneratorError)
       \<and> calls fin
           = calls mid
             @ (case streamSession mid of None \<Rightarrow> []
                | Some s \<Rightarrow> [StreamerStop (streamer s) None])
       \<and> stopStreamIfActive tp fin = fin)"
proof -
  let ?mid = "deliverAll tp cfg evs initialRouter"
  have c: "consistent ?mid"
    by (rule consistent_deliverAll) (rule consistent_initial)
  have fin: "snd (dispatchResult tp cfg evs oc initialRouter) = stopStreamIfActive tp ?mid"
    by (simp add: dispatchResult_def Let_def split: outcome.splits)
  have res: "fst (dispatchResult tp cfg evs oc initialRouter)
               = (case oc of Completed \<Rightarrow> Inr () | Threw \<Rightarrow> Inl GeneratorError)"
    by (simp add: dispatchResult_def Let_def split: outcome.splits)
  have cleared: "streamedText (stopStreamIfActive tp ?mid) = []"
    using c by (simp add: stopStreamIfActive_text consistent_def split: option.splits)
  have trace: "calls (stopStreamIfActive tp ?mid)
                 = calls ?mid @ (case streamSession ?mid of None \<Rightarrow> []
                                  | Some s \<Rightarrow> [StreamerStop (streamer s) None])"
  proof (cases "streamSession ?mid")
    case None
    then show ?thesis by (simp add: stopStreamIfActive_idle)
  next
    case (Some s)
    with c have "\<not> stopped s" by (simp add: consistent_def split: if_splits)
    with Some show ?thesis by (simp add: stopStreamIfActive_active)
  qed
  show ?thesis
    unfolding Let_def fin res
    using cleared trace by (simp add: stopStreamIfActive_idle)
qed

subsection \<open>Streaming two growing blocks\<close>

lemma effectiveThreadTs_Some:
  "effectiveThreadTs r = Some thr \<Longrightarrow> truthy r"
  by (cases r) (auto simp add: effectiveThreadTs_def split: if_splits)

text \<open>
  C5.  With streaming enabled, mode \<open>all\<close>, a thread target that resolves to \<open>thr\<close>, two
  events that are not tool output and whose texts \<open>first block\<close> and
  \<open>first block second block\<close> are not silent, and a client that does not fail: one stream
  is started, the first append carries the whole first text, the second append carries
  only the added suffix, nothing is sent discretely, and the stream is stopped once.
\<close>

theorem streaming_happy_path:
  assumes enabled: "streaming cfg"
    and mode: "replyToMode cfg = ModeAll"
    and thread: "effectiveThreadTs
                   (resolveSlackThreadTs ModeAll (incomingThreadTs cfg) (messageTs cfg) False)
                 = Some thr"
    and loud: "\<not> isSilentReplyText cfg ''first block''"
              "\<not> isSilentReplyText cfg ''first block second block''"
    and kinds: "k1 \<noteq> Tool" "k2 \<noteq> Tool"
    and reliable: "\<And>tr c. \<not> tp tr c"
  shows "dispatchResult tp cfg
           [(textPayload ''first block'', k1), (textPayload ''first block second block'', k2)]
           Completed initialRouter
         = (Inr (),
            \<lparr>streamSession = None, streamFailed = False, streamedText = [],
             hasReplied = True,
             calls = [ChatStream (messageChannel cfg) thr,
                      StreamerAppend 0 ''first block'',
                      StreamerAppend 0 '' second block'',
                      StreamerStop 0 None]\<rparr>)"
proof -
  let ?r = "resolveSlackThreadTs ModeAll (incomingThreadTs cfg) (messageTs cfg) False"
  have target: "nextThreadTs cfg st = ?r" for st
    using mode by (simp add: nextThreadTs_def resolveSlackThreadTs_def)
  have use: "useStreaming cfg"
    using enabled mode effectiveThreadTs_Some [OF thread] by (simp add: useStreaming_def)
  have thr: "thr \<noteq> []"
    using thread by (auto simp add: effectiveThreadTs_def split: option.splits if_splits)
  have t1: "trimmedText (textPayload ''first block'') = ''first block''"
    by (simp add: trimmedText_def textPayload_def trim_def isWhiteSpace_def)
  have t2: "trimmedText (textPayload ''first block second block'') = ''first block second block''"
    by (simp add: trimmedText_def textPayload_def trim_def isWhiteSpace_def)
  have m: "\<not> hasMedia (textPayload t)" for t
    by (simp add: hasMedia_def textPayload_def)
  have can: "canStreamText cfg st (textPayload ''first block'') k1"
            "canStreamText cfg st (textPayload ''first block second block'') k2"
    if "\<not> streamFailed st" for st
    using that use kinds loud by (simp_all add: canStreamText_def target thread thr t1 t2 m)
  let ?s = "\<lparr>streamer = 0, channel = messageChannel cfg, threadTs = thr, stopped = False\<rparr>"
  let ?st1 = "\<lparr>streamSession = Some ?s, streamFailed = False, streamedText = ''first block'',
               hasReplied = True,
               calls = [ChatStream (messageChannel cfg) thr, StreamerAppend 0 ''first block'']\<rparr>"
  let ?st2 = "\<lparr>streamSession = Some ?s, streamFailed = False,
               streamedText = ''first block second block'', hasReplied = True,
               calls = [ChatStream (messageChannel cfg) thr, StreamerAppend 0 ''first block'',
                        StreamerAppend 0 '' second block'']\<rparr>"
  have step1: "deliverWithOptionalStreaming tp cfg (textPayload ''first block'') k1 initialRouter
                 = (Inr (), ?st1)"
    using can(1) [of initialRouter] reliable
    by (simp add: deliverWithOptionalStreaming_def target thread t1 streamAttempt_def
        startNewStream_def stopStreamIfActive_def startSlackStream_def appendSlackStream_def
        invoke_def markSent_def initialRouter_def Let_def)
  have step2: "deliverWithOptionalStreaming tp cfg (textPayload ''first block second block'') k2 ?st1
                 = (Inr (), ?st2)"
    using can(2) [of ?st1] reliable
    by (simp add: deliverWithOptionalStreaming_def target thread t2 streamAttempt_def
        appendDelta_def resolveStreamDelta_def startsWith_def slice_def appendSlackStream_def
        invoke_def markSent_def Let_def)
  have stop: "stopStreamIfActive tp ?st2
                = \<lparr>streamSession = None, streamFailed = False, streamedText = [],
                   hasReplied = True,
                   calls = [ChatStream (messageChannel cfg) thr,
                            StreamerAppend 0 ''first block'',
                            StreamerAppend 0 '' second block'',
                            StreamerStop 0 None]\<rparr>"
    by (simp add: stopStreamIfActive_def stopSlackStream_def invoke_def Let_def reliable)
  show ?thesis
    by (simp add: dispatchResult_def step1 step2 stop)
qed

theorem streaming_happy_path_witness:
  "dispatchResult neverFails (testConfig ModeAll)
     [(textPayload ''first block'', Block), (textPayload ''first block second block'', Block)]
     Completed initialRouter
   = (Inr (),
      \<lparr>streamSession = None, streamFailed = False, streamedText = [], hasReplied = True,
       calls = [ChatStream ''C1'' ''123'', StreamerAppend 0 ''first block'',
                StreamerAppend 0 '' second block'', StreamerStop 0 None]\<rparr>)"
proof -
  let ?cfg = "testConfig ModeAll"
  have enabled: "streaming ?cfg" and mode: "replyToMode ?cfg = ModeAll"
    and chan: "messageChannel ?cfg = ''C1''"
    and loud: "\<not> isSilentReplyText ?cfg ''first block''"
              "\<not> isSilentReplyText ?cfg ''first block second block''"
    by (simp_all add: testConfig_def)
  have thread: "effectiveThreadTs
                  (resolveSlackThreadTs ModeAll (incomingThreadTs ?cfg) (messageTs ?cfg) False)
                = Some ''123''"
    by (simp add: testConfig_def resolveSlackThreadTs_def effectiveThreadTs_def trim_def
        isWhiteSpace_def)
  have kinds: "Block \<noteq> Tool" by simp
  have reliable: "\<not> neverFails tr c" for tr c by (simp add: neverFails_def)
  from streaming_happy_path [of ?cfg "''123''" Block Block neverFails,
      OF enabled mode thread loud kinds kinds reliable]
  show ?thesis by (simp add: chan)
qed

subsection \<open>Fallback after a failed first append\<close>

lemma first_append_fails_step:
  assumes idle: "streamSession st = None"
    and eligible: "canStreamText cfg st p k"
    and thread: "effectiveThreadTs (nextThreadTs cfg st) = Some thr"
    and started: "\<not> tp (calls st) (ChatStream (messageChannel cfg) thr)"
    and append_fails:
      "tp (calls st @ [ChatStream (messageChannel cfg) thr])
          (StreamerAppend (length (startsOf (calls st))) (trimmedText p))"
  shows "deliverWithOptionalStreaming tp cfg p k st
           = deliverNormal tp p (nextThreadTs cfg st)
               (st\<lparr>calls := calls st @ [ChatStream (messageChannel cfg) thr,
                                          StreamerAppend (length (startsOf (calls st))) (trimmedText p)],
                   streamFailed := True\<rparr>)"
proof -
  have nonempty: "trimmedText p \<noteq> []"
    using eligible by (simp add: canStreamText_def split: if_splits)
  have attempt: "streamAttempt tp cfg thr (trimmedText p) st
          = (Inl TransportError,
             st\<lparr>calls := calls st @ [ChatStream (messageChannel cfg) thr,
                    StreamerAppend (length (startsOf (calls st))) (trimmedText p)]\<rparr>)"
    using idle started append_fails nonempty
    by (simp add: streamAttempt_def startNewStream_def stopStreamIfActive_idle
        startSlackStream_def appendSlackStream_def invoke_def Let_def)
  show ?thesis
    using eligible thread idle
    by (simp add: deliverWithOptionalStreaming_def attempt stopStreamIfActive_idle)
qed

text \<open>Once streaming has failed and no session is active, the router's sends are
  those the plan prescribes.\<close>

lemma deliverNormal_hasReplied_eq:
  "hasReplied (snd (deliverNormal tp p thr st))
     = (if tp (calls st) (SendMessage p thr) then hasReplied st else True)"
  by (simp add: deliverNormal_def invoke_def markSent_def)

lemma fallbackSends_payloads: "map fst (fallbackSends tp cfg replied tr evs) = map fst evs"
  by (induction evs arbitrary: replied tr) (simp_all add: Let_def)

lemma fallbackSends_ModeAll:
  "replyToMode cfg = ModeAll \<Longrightarrow>
     fallbackSends tp cfg replied tr evs
       = map (\<lambda>ev. (fst ev, resolveSlackThreadTs ModeAll (incomingThreadTs cfg) (messageTs cfg) False)) evs"
  by (induction evs arbitrary: replied tr) (simp_all add: Let_def resolveSlackThreadTs_def)

lemma fallbackSends_replied_ModeFirst:
  "replyToMode cfg = ModeFirst \<Longrightarrow>
     fallbackSends tp cfg True tr evs = map (\<lambda>ev. (fst ev, None)) evs"
  by (induction evs arbitrary: tr) (simp_all add: Let_def resolveSlackThreadTs_def)

lemma deliverAll_failed_idle:
  "streamFailed st \<Longrightarrow> streamSession st = None \<Longrightarrow>
     sendsOf (calls (deliverAll tp cfg evs st))
       = sendsOf (calls st) @ fallbackSends tp cfg (hasReplied st) (calls st) evs"
proof (induction evs arbitrary: st)
  case Nil
  then show ?case by simp
next
  case (Cons ev evs)
  let ?thr = "nextThreadTs cfg st"
  let ?st1 = "snd (deliverWithOptionalStreaming tp cfg (fst ev) (snd ev) st)"
  have step: "?st1 = snd (deliverNormal tp (fst ev) ?thr st)"
    using Cons.prems
    by (simp add: deliver_without_streaming failed_cannot_stream stopStreamIfActive_idle)
  have failed: "streamFailed ?st1" and idle: "streamSession ?st1 = None"
    using Cons.prems by (simp_all add: step)
  have flag: "hasReplied ?st1
                = (if tp (calls st) (SendMessage (fst ev) ?thr) then hasReplied st else True)"
    by (simp add: step deliverNormal_hasReplied_eq)
  have trace: "calls ?st1 = calls st @ [SendMessage (fst ev) ?thr]"
    by (simp add: step)
  from Cons.IH [OF failed idle] show ?case
    by (simp add: flag trace Let_def) (simp add: nextThreadTs_def)
qed

text \<open>
  C3, as the code has it.  When a payload eligible for streaming arrives while no session
  is active, the stream is created and its first append throws, then at the end of the
  response the streaming-failed flag is set, no further stream has been started and no
  further append made, and the failed payload and every later payload have each been
  handed to one discrete send, addressed to the thread target the plan resolves for that
  payload: under mode \<open>all\<close> the original target for every one of them; under mode
  \<open>first\<close> the original target until a send has returned, so that once the send of the
  failed payload has returned every later payload is sent with no thread attachment.
\<close>

theorem fallback_after_first_append_failure:
  assumes idle: "streamSession st = None"
    and eligible: "canStreamText cfg st p k"
    and thread: "effectiveThreadTs (nextThreadTs cfg st) = Some thr"
    and started: "\<not> tp (calls st) (ChatStream (messageChannel cfg) thr)"
    and append_fails:
      "tp (calls st @ [ChatStream (messageChannel cfg) thr])
          (StreamerAppend (length (startsOf (calls st))) (trimmedText p))"
  shows "(let fin = snd (dispatchResult tp cfg ((p, k) # evs) oc st);
              tr = calls st @ [ChatStream (messageChannel cfg) thr,
                               StreamerAppend (length (startsOf (calls st))) (trimmedText p)]
          in streamFailed fin
             \<and> startsOf (calls fin) = startsOf (calls st) @ [(messageChannel cfg, thr)]
             \<and> appendsOf (calls fin)
                 = appendsOf (calls st) @ [(length (startsOf (calls st)), trimmedText p)]
             \<and> map fst (sendsOf (calls fin)) = map fst (sendsOf (calls st)) @ p # map fst evs
             \<and> sendsOf (calls fin)
                 = sendsOf (calls st) @ fallbackSends tp cfg (hasReplied st) tr ((p, k) # evs)
             \<and> (replyToMode cfg = ModeAll \<longrightarrow>
                   sendsOf (calls fin)
                     = sendsOf (calls st)
                       @ map (\<lambda>ev. (fst ev, nextThreadTs cfg st)) ((p, k) # evs))
             \<and> (replyToMode cfg = ModeFirst
                  \<and> \<not> tp tr (SendMessage p (nextThreadTs cfg st)) \<longrightarrow>
                   sendsOf (calls fin)
                     = sendsOf (calls st)
                       @ (p, nextThreadTs cfg st) # map (\<lambda>ev. (fst ev, None)) evs))"
proof -
  let ?tr = "calls st @ [ChatStream (messageChannel cfg) thr,
                         StreamerAppend (length (startsOf (calls st))) (trimmedText p)]"
  let ?st0 = "st\<lparr>calls := ?tr, streamFailed := True\<rparr>"
  let ?st1 = "snd (deliverWithOptionalStreaming tp cfg p k st)"
  let ?mid = "deliverAll tp cfg evs ?st1"
  let ?fin = "snd (dispatchResult tp cfg ((p, k) # evs) oc st)"
  have step: "?st1 = snd (deliverNormal tp p (nextThreadTs cfg st) ?st0)"
    using first_append_fails_step [OF assms] by simp
  have failed1: "streamFailed ?st1" and idle1: "streamSession ?st1 = None"
    using idle by (simp_all add: step)
  have fin: "?fin = stopStreamIfActive tp ?mid"
    by (simp add: dispatchResult_def Let_def split: outcome.splits)
  note rest = deliverAll_failed [OF failed1, of tp cfg evs]
  have a: "streamFailed ?fin"
    using rest by (simp add: fin stopStreamIfActive_failed)
  have b: "startsOf (calls ?fin) = startsOf (calls st) @ [(messageChannel cfg, thr)]"
    using rest by (simp add: fin step)
  have c: "appendsOf (calls ?fin)
             = appendsOf (calls st) @ [(length (startsOf (calls st)), trimmedText p)]"
    using rest by (simp add: fin step)
  have flag1: "hasReplied ?st1
                 = (if tp ?tr (SendMessage p (nextThreadTs cfg st)) then hasReplied st else True)"
    by (simp add: step deliverNormal_hasReplied_eq)
  have trace1: "calls ?st1 = ?tr @ [SendMessage p (nextThreadTs cfg st)]"
    by (simp add: step)
  have e: "sendsOf (calls ?fin)
             = sendsOf (calls st) @ fallbackSends tp cfg (hasReplied st) ?tr ((p, k) # evs)"
    using deliverAll_failed_idle [OF failed1 idle1, of tp cfg evs]
    by (simp add: fin flag1 trace1 Let_def) (simp add: nextThreadTs_def)
  have d: "map fst (sendsOf (calls ?fin)) = map fst (sendsOf (calls st)) @ p # map fst evs"
    by (simp only: e map_append fallbackSends_payloads) simp
  have f: "sendsOf (calls ?fin)
             = sendsOf (calls st) @ map (\<lambda>ev. (fst ev, nextThreadTs cfg st)) ((p, k) # evs)"
    if mode: "replyToMode cfg = ModeAll"
    using mode by (simp only: e fallbackSends_ModeAll [OF mode])
                   (simp add: nextThreadTs_def resolveSlackThreadTs_def)
  have g: "sendsOf (calls ?fin)
             = sendsOf (calls st) @ (p, nextThreadTs cfg st) # map (\<lambda>ev. (fst ev, None)) evs"
    if mode: "replyToMode cfg = ModeFirst"
      and sent: "\<not> tp ?tr (SendMessage p (nextThreadTs cfg st))"
    using sent by (simp add: e Let_def fallbackSends_replied_ModeFirst [OF mode] nextThreadTs_def)
  show ?thesis
    unfolding Let_def using a b c d e f g by blast
qed

theorem fallback_after_first_append_failure_witness:
  "sendsOf (calls (snd (dispatchResult firstAppendFails (testConfig ModeAll)
       [(textPayload ''first block'', Block), (textPayload ''second block'', Block)]
       Completed initialRouter)))
     = [(textPayload ''first block'', Some ''123''), (textPayload ''second block'', Some ''123'')]
   \<and> sendsOf (calls (snd (dispatchResult firstAppendFails (testConfig ModeFirst)
       [(textPayload ''first block'', Block), (textPayload ''second block'', Block)]
       Completed initialRouter)))
     = [(textPayload ''first block'', Some ''123''), (textPayload ''second block'', None)]
   \<and> startsOf (calls (snd (dispatchResult firstAppendFails (testConfig ModeAll)
       [(textPayload ''first block'', Block), (textPayload ''second block'', Block)]
       Completed initialRouter)))
     = [(''C1'', ''123'')]
   \<and> appendsOf (calls (snd (dispatchResult firstAppendFails (testConfig ModeAll)
       [(textPayload ''first block'', Block), (textPayload ''second block'', Block)]
       Completed initialRouter)))
     = [(0, ''first block'')]
   \<and> streamFailed (snd (dispatchResult firstAppendFails (testConfig ModeAll)
       [(textPayload ''first block'', Block), (textPayload ''second block'', Block)]
       Completed initialRouter))"
proof -
  let ?p = "textPayload ''first block''"
  let ?evs = "[(textPayload ''second block'', Block)]"
  have trimmed: "trimmedText ?p = ''first block''"
    by (simp add: trimmedText_def textPayload_def trim_def isWhiteSpace_def)
  have idle: "streamSession initialRouter = None" and empty: "calls initialRouter = []"
    by (simp_all add: initialRouter_def)
  have facts: "nextThreadTs (testConfig m) initialRouter = Some ''123''"
      "effectiveThreadTs (nextThreadTs (testConfig m) initialRouter) = Some ''123''"
      "canStreamText (testConfig m) initialRouter ?p Block"
      "messageChannel (testConfig m) = ''C1''"
      "replyToMode (testConfig m) = m"
    if "m = ModeAll \<or> m = ModeFirst" for m
    using that
    by (auto simp add: nextThreadTs_def resolveSlackThreadTs_def testConfig_def
        effectiveThreadTs_def trim_def isWhiteSpace_def canStreamText_def useStreaming_def
        hasMedia_def trimmedText_def textPayload_def initialRouter_def)
  have started: "\<not> firstAppendFails (calls initialRouter) (ChatStream (messageChannel (testConfig m)) ''123'')"
    for m by (simp add: firstAppendFails_def)
  have append_fails:
    "firstAppendFails (calls initialRouter @ [ChatStream (messageChannel (testConfig m)) ''123''])
       (StreamerAppend (length (startsOf (calls initialRouter))) (trimmedText ?p))" for m
    by (simp add: firstAppendFails_def initialRouter_def)
  have sent: "\<not> firstAppendFails tr (SendMessage q r)" for tr q r
    by (simp add: firstAppendFails_def)
  note all = facts [of ModeAll, simplified]
  note one = facts [of ModeFirst, simplified]
  from fallback_after_first_append_failure [of initialRouter "testConfig ModeAll" ?p Block
      "''123''" firstAppendFails ?evs Completed,
      OF idle all(3) all(2) started append_fails]
  have A: "sendsOf (calls (snd (dispatchResult firstAppendFails (testConfig ModeAll)
               ((?p, Block) # ?evs) Completed initialRouter)))
             = [(?p, Some ''123''), (textPayload ''second block'', Some ''123'')]
           \<and> startsOf (calls (snd (dispatchResult firstAppendFails (testConfig ModeAll)
               ((?p, Block) # ?evs) Completed initialRouter))) = [(''C1'', ''123'')]
           \<and> appendsOf (calls (snd (dispatchResult firstAppendFails (testConfig ModeAll)
               ((?p, Block) # ?evs) Completed initialRouter))) = [(0, ''first block'')]
           \<and> streamFailed (snd (dispatchResult firstAppendFails (testConfig ModeAll)
               ((?p, Block) # ?evs) Completed initialRouter))"
    by (auto simp add: Let_def all empty trimmed)
  from fallback_after_first_append_failure [of initialRouter "testConfig ModeFirst" ?p Block
      "''123''" firstAppendFails ?evs Completed,
      OF idle one(3) one(2) started append_fails]
  have B: "sendsOf (calls (snd (dispatchResult firstAppendFails (testConfig ModeFirst)
               ((?p, Block) # ?evs) Completed initialRouter)))
             = [(?p, Some ''123''), (textPayload ''second block'', None)]"
    by (auto simp add: Let_def one empty trimmed sent)
  from A B show ?thesis by simp
qed

text \<open>
  C3 as stated fails under mode \<open>first\<close>: the first append throws, the failed payload is
  sent to thread \<open>123\<close>, and the next payload is sent with no thread attachment.
\<close>

theorem fallback_thread_counterexample:
  "firstAppendFails [ChatStream ''C1'' ''123''] (StreamerAppend 0 ''first block'')
   \<and> calls (snd (dispatchResult firstAppendFails (testConfig ModeFirst)
         [(textPayload ''first block'', Block), (textPayload ''second block'', Block)]
         Completed initialRouter))
       = [ChatStream ''C1'' ''123'', StreamerAppend 0 ''first block'',
          SendMessage (textPayload ''first block'') (Some ''123''),
          SendMessage (textPayload ''second block'') None]
   \<and> sendsOf (calls (snd (dispatchResult firstAppendFails (testConfig ModeFirst)
         [(textPayload ''first block'', Block), (textPayload ''second block'', Block)]
         Completed initialRouter)))
       \<noteq> [(textPayload ''first block'', Some ''123''),
           (textPayload ''second block'', Some ''123'')]"
  by (simp add: router_defs)

subsection \<open>No thread target\<close>

lemma deliverAll_ModeOff:
  assumes "replyToMode cfg = ModeOff"
  shows "streamSession st = None \<Longrightarrow>
           streamSession (deliverAll tp cfg evs st) = None
           \<and> calls (deliverAll tp cfg evs st)
               = calls st @ map (\<lambda>ev. SendMessage (fst ev) None) evs"
proof (induction evs arbitrary: st)
  case Nil
  then show ?case by simp
next
  case (Cons ev evs)
  let ?st1 = "snd (deliverWithOptionalStreaming tp cfg (fst ev) (snd ev) st)"
  have none: "nextThreadTs cfg st = None"
    using assms by (rule nextThreadTs_ModeOff)
  have step: "?st1 = snd (deliverNormal tp (fst ev) None st)"
    using Cons.prems none
    by (simp add: deliver_without_streaming unthreaded_cannot_stream stopStreamIfActive_idle)
  have "streamSession ?st1 = None"
    using Cons.prems by (simp add: step)
  from Cons.IH [OF this] show ?case
    by (simp add: step)
qed

text \<open>
  C7.  A payload for which the plan resolves no thread target starts no stream, appends
  to none, and is handed to exactly one discrete send with no thread attachment; under
  mode \<open>off\<close>, whatever the streaming setting and the client, the calls of a whole response
  are exactly one such send per payload.
\<close>

theorem no_thread_no_streaming:
  "(nextThreadTs cfg st = None \<longrightarrow>
      (let st' = snd (deliverWithOptionalStreaming tp cfg p k st) in
         startsOf (calls st') = startsOf (calls st)
         \<and> appendsOf (calls st') = appendsOf (calls st)
         \<and> sendsOf (calls st') = sendsOf (calls st) @ [(p, None)]))
   \<and> (replyToMode cfg = ModeOff \<longrightarrow>
        calls (snd (dispatchResult tp cfg evs oc initialRouter))
          = map (\<lambda>ev. SendMessage (fst ev) None) evs)"
proof (intro conjI impI)
  assume none: "nextThreadTs cfg st = None"
  then show "let st' = snd (deliverWithOptionalStreaming tp cfg p k st) in
         startsOf (calls st') = startsOf (calls st)
         \<and> appendsOf (calls st') = appendsOf (calls st)
         \<and> sendsOf (calls st') = sendsOf (calls st) @ [(p, None)]"
    by (simp add: deliver_without_streaming unthreaded_cannot_stream)
next
  assume off: "replyToMode cfg = ModeOff"
  have idle: "streamSession initialRouter = None" by (simp add: initialRouter_def)
  from deliverAll_ModeOff [OF off idle, of tp evs]
  show "calls (snd (dispatchResult tp cfg evs oc initialRouter))
          = map (\<lambda>ev. SendMessage (fst ev) None) evs"
    by (simp add: dispatchResult_def Let_def stopStreamIfActive_idle initialRouter_def
        split: outcome.splits)
qed

theorem no_thread_no_streaming_witness:
  "nextThreadTs (testConfig ModeOff) initialRouter = None
   \<and> sendsOf (calls (snd (deliverWithOptionalStreaming neverFails (testConfig ModeOff)
         (textPayload ''normal reply'') Final initialRouter)))
       = [(textPayload ''normal reply'', None)]
   \<and> calls (snd (dispatchResult neverFails (testConfig ModeOff)
         [(textPayload ''normal reply'', Final)] Completed initialRouter))
       = [SendMessage (textPayload ''normal reply'') None]"
  using no_thread_no_streaming [of "testConfig ModeOff" initialRouter neverFails
      "textPayload ''normal reply''" Final "[(textPayload ''normal reply'', Final)]" Completed]
  by (simp add: testConfig_def initialRouter_def nextThreadTs_def resolveSlackThreadTs_def Let_def)

subsection \<open>First-reply threading\<close>

lemma hasReplied_startNewStream:
  "hasReplied (snd (startNewStream tp cfg thr t st)) = hasReplied st"
  by (simp add: startNewStream_def Let_def split: prod.splits sum.splits)

lemma hasReplied_appendDelta:
  "hasReplied (snd (appendDelta tp s t st)) = hasReplied st"
  by (simp add: appendDelta_def Let_def split: prod.splits)

lemma hasReplied_streamAttempt:
  "hasReplied (snd (streamAttempt tp cfg thr t st)) = hasReplied st"
  by (simp add: streamAttempt_def hasReplied_startNewStream hasReplied_appendDelta
      split: option.splits)

lemma hasReplied_step:
  assumes "hasReplied st"
  shows "hasReplied (snd (deliverWithOptionalStreaming tp cfg p k st))"
proof (cases "canStreamText cfg st p k")
  case False
  then show ?thesis
    using assms by (simp add: deliver_without_streaming deliverNormal_hasReplied)
next
  case True
  show ?thesis
  proof (cases "effectiveThreadTs (nextThreadTs cfg st)")
    case None
    with True assms show ?thesis
      by (simp add: deliverWithOptionalStreaming_def deliverNormal_hasReplied)
  next
    case (Some thr)
    obtain r st1 where att: "streamAttempt tp cfg thr (trimmedText p) st = (r, st1)"
      by (cases "streamAttempt tp cfg thr (trimmedText p) st")
    have "hasReplied st1"
      using hasReplied_streamAttempt [of tp cfg thr "trimmedText p" st] att assms by simp
    with True Some att show ?thesis
      by (cases r) (simp_all add: deliverWithOptionalStreaming_def deliverNormal_hasReplied
          markSent_def)
  qed
qed

lemma hasReplied_deliverAll:
  "hasReplied st \<Longrightarrow> hasReplied (deliverAll tp cfg evs st)"
  by (induction evs arbitrary: st) (simp_all add: hasReplied_step)

text \<open>Under mode \<open>first\<close>, once the plan is marked every later payload is sent discretely
  with no thread attachment.\<close>

lemma nextThreadTs_replied_ModeFirst:
  "replyToMode cfg = ModeFirst \<Longrightarrow> hasReplied st \<Longrightarrow> nextThreadTs cfg st = None"
  by (simp add: nextThreadTs_def resolveSlackThreadTs_def)

lemma deliverAll_replied_ModeFirst:
  assumes mode: "replyToMode cfg = ModeFirst"
  shows "hasReplied st \<Longrightarrow>
           startsOf (calls (deliverAll tp cfg evs st)) = startsOf (calls st)
           \<and> appendsOf (calls (deliverAll tp cfg evs st)) = appendsOf (calls st)
           \<and> sendsOf (calls (deliverAll tp cfg evs st))
               = sendsOf (calls st) @ map (\<lambda>ev. (fst ev, None)) evs"
proof (induction evs arbitrary: st)
  case Nil
  then show ?case by simp
next
  case (Cons ev evs)
  let ?st1 = "snd (deliverWithOptionalStreaming tp cfg (fst ev) (snd ev) st)"
  have none: "nextThreadTs cfg st = None"
    using mode Cons.prems by (rule nextThreadTs_replied_ModeFirst)
  have step: "?st1 = snd (deliverNormal tp (fst ev) None (stopStreamIfActive tp st))"
    using none by (simp add: deliver_without_streaming unthreaded_cannot_stream)
  have "hasReplied ?st1"
    using Cons.prems by (rule hasReplied_step)
  from Cons.IH [OF this] show ?case
    by (simp add: step)
qed

text \<open>A delivery that returns marks the plan, and it has either handed the payload to a
  discrete send with the resolved target or left a stream on that target.\<close>

lemma startSlackStream_threadTs:
  "startSlackStream tp c t v tr = (Inr s, tr') \<Longrightarrow> threadTs s = t"
  by (auto simp add: startSlackStream_def invoke_def Let_def
      split: if_splits option.splits prod.splits sum.splits)

lemma startNewStream_done:
  assumes "startNewStream tp cfg thr v st = (Inr u, st1)"
  shows "sendsOf (calls st1) = sendsOf (calls st)
         \<and> (case streamSession st1 of None \<Rightarrow> False | Some s \<Rightarrow> threadTs s = thr)"
proof -
  let ?st0 = "stopStreamIfActive tp st"
  obtain r tr where start: "startSlackStream tp (messageChannel cfg) thr (Some v) (calls ?st0) = (r, tr)"
    by (cases "startSlackStream tp (messageChannel cfg) thr (Some v) (calls ?st0)")
  show ?thesis
  proof (cases r)
    case (Inl e)
    with start assms show ?thesis by (simp add: startNewStream_def)
  next
    case (Inr s)
    with start have thr: "threadTs s = thr" by (auto dest: startSlackStream_threadTs)
    have tr: "sendsOf tr = sendsOf (calls ?st0)"
      using start Inr
      by (auto simp add: startSlackStream_def appendSlackStream_def invoke_def Let_def
          split: if_splits)
    from start Inr assms have "st1 = ?st0\<lparr>streamSession := Some s, streamedText := v, calls := tr\<rparr>"
      by (simp add: startNewStream_def)
    then show ?thesis by (simp add: thr tr)
  qed
qed

lemma appendDelta_done:
  assumes "appendDelta tp s v st = (r, st1)" and "streamSession st = Some s"
  shows "sendsOf (calls st1) = sendsOf (calls st) \<and> streamSession st1 = Some s"
  using assms
  by (auto simp add: appendDelta_def appendSlackStream_def invoke_def Let_def
      split: if_splits prod.splits)

lemma streamAttempt_done:
  assumes "streamAttempt tp cfg thr v st = (Inr u, st1)"
  shows "sendsOf (calls st1) = sendsOf (calls st)
         \<and> (case streamSession st1 of None \<Rightarrow> False | Some s \<Rightarrow> threadTs s = thr)"
proof (cases "streamSession st")
  case None
  with assms show ?thesis by (simp add: streamAttempt_def startNewStream_done)
next
  case (Some s)
  show ?thesis
  proof (cases "threadTs s = thr")
    case True
    with Some assms have "appendDelta tp s v st = (Inr u, st1)" by (simp add: streamAttempt_def)
    from appendDelta_done [OF this Some] True show ?thesis by simp
  next
    case False
    with Some assms show ?thesis by (simp add: streamAttempt_def startNewStream_done)
  qed
qed

lemma delivered_step:
  assumes delivered: "fst (deliverWithOptionalStreaming tp cfg p k st) = Inr ()"
  shows "hasReplied (snd (deliverWithOptionalStreaming tp cfg p k st))
         \<and> (case streamSession (snd (deliverWithOptionalStreaming tp cfg p k st)) of
               None \<Rightarrow>
                 sendsOf (calls (snd (deliverWithOptionalStreaming tp cfg p k st)))
                   = sendsOf (calls st) @ [(p, nextThreadTs cfg st)]
             | Some s \<Rightarrow>
                 effectiveThreadTs (nextThreadTs cfg st) = Some (threadTs s)
                 \<and> sendsOf (calls (snd (deliverWithOptionalStreaming tp cfg p k st)))
                     = sendsOf (calls st))"
proof -
  have normal: "hasReplied (snd (deliverNormal tp p thr st0))
                \<and> streamSession (snd (deliverNormal tp p thr st0)) = None
                \<and> sendsOf (calls (snd (deliverNormal tp p thr st0)))
                    = sendsOf (calls st) @ [(p, thr)]"
    if "fst (deliverNormal tp p thr st0) = Inr ()" and "streamSession st0 = None"
      and "sendsOf (calls st0) = sendsOf (calls st)" for thr st0
    using that by (simp add: deliverNormal_hasReplied_eq)
      (simp add: deliverNormal_def invoke_def split: if_splits)
  show ?thesis
  proof (cases "canStreamText cfg st p k")
    case False
    with delivered normal [of "nextThreadTs cfg st" "stopStreamIfActive tp st"]
    show ?thesis by (simp add: deliver_without_streaming)
  next
    case True
    show ?thesis
    proof (cases "effectiveThreadTs (nextThreadTs cfg st)")
      case None
      with True delivered normal [of "nextThreadTs cfg st" "stopStreamIfActive tp st"]
      show ?thesis by (simp add: deliverWithOptionalStreaming_def)
    next
      case (Some thr)
      obtain r st1 where att: "streamAttempt tp cfg thr (trimmedText p) st = (r, st1)"
        by (cases "streamAttempt tp cfg thr (trimmedText p) st")
      show ?thesis
      proof (cases r)
        case (Inr u)
        with att have "streamAttempt tp cfg thr (trimmedText p) st = (Inr u, st1)" by simp
        from streamAttempt_done [OF this] True Some att Inr show ?thesis
          by (simp add: deliverWithOptionalStreaming_def markSent_def split: option.splits)
      next
        case (Inl e)
        have same: "sendsOf (calls st1) = sendsOf (calls st)"
          using att
          by (auto simp add: streamAttempt_def startNewStream_def appendDelta_def
              startSlackStream_def appendSlackStream_def invoke_def Let_def
              split: option.splits if_splits prod.splits sum.splits)
        from True Some att Inl delivered
          normal [of "nextThreadTs cfg st" "stopStreamIfActive tp (st1\<lparr>streamFailed := True\<rparr>)"]
        show ?thesis
          by (simp add: deliverWithOptionalStreaming_def same)
      qed
    qed
  qed
qed

text \<open>
  C8.  Under mode \<open>first\<close> with an incoming thread identifier \<open>t\<close> and a plan that has not
  replied, the first reply resolves \<open>t\<close>: when its delivery returns, the payload has been
  sent discretely to \<open>t\<close> or streamed on \<open>t\<close> (trimmed), and the plan is marked.  Every later reply
  of the response then resolves nothing: it starts no stream, appends to none, and is
  sent with no thread attachment.  Marking sent twice is marking sent once, and marking
  a marked state changes nothing.
\<close>

theorem first_mode_threading:
  assumes mode: "replyToMode cfg = ModeFirst"
    and incoming: "incomingThreadTs cfg = Some t"
    and fresh: "\<not> hasReplied st"
    and delivered: "fst (deliverWithOptionalStreaming tp cfg p k st) = Inr ()"
  shows "(let st1 = snd (deliverWithOptionalStreaming tp cfg p k st);
              fin = deliverAll tp cfg evs st1
          in nextThreadTs cfg st = Some t
             \<and> (case streamSession st1 of
                   None \<Rightarrow> sendsOf (calls st1) = sendsOf (calls st) @ [(p, Some t)]
                 | Some s \<Rightarrow>
                     effectiveThreadTs (Some t) = Some (threadTs s)
                     \<and> sendsOf (calls st1) = sendsOf (calls st))
             \<and> hasReplied st1
             \<and> nextThreadTs cfg st1 = None
             \<and> nextThreadTs cfg fin = None
             \<and> startsOf (calls fin) = startsOf (calls st1)
             \<and> appendsOf (calls fin) = appendsOf (calls st1)
             \<and> sendsOf (calls fin) = sendsOf (calls st1) @ map (\<lambda>ev. (fst ev, None)) evs
             \<and> nextThreadTs cfg (markSent st) = None
             \<and> hasReplied (markSent st)
             \<and> markSent (markSent st) = markSent st
             \<and> markSent st1 = st1)"
proof -
  let ?st1 = "snd (deliverWithOptionalStreaming tp cfg p k st)"
  let ?fin = "deliverAll tp cfg evs ?st1"
  have target: "nextThreadTs cfg st = Some t"
    using mode incoming fresh by (simp add: nextThreadTs_def resolveSlackThreadTs_def)
  note first = delivered_step [OF delivered, unfolded target]
  have replied: "hasReplied ?st1" using first by simp
  have later: "hasReplied ?fin" using replied by (rule hasReplied_deliverAll)
  note rest = deliverAll_replied_ModeFirst [OF mode replied, of tp evs]
  have plan: "nextThreadTs cfg (markSent st) = None" "hasReplied (markSent st)"
    "markSent (markSent st) = markSent st"
    using mode by (simp_all add: nextThreadTs_def resolveSlackThreadTs_def markSent_def)
  have again: "markSent ?st1 = ?st1"
    using replied by (simp add: markSent_def)
  show ?thesis
    unfolding Let_def
    using target first rest plan again
      nextThreadTs_replied_ModeFirst [OF mode replied]
      nextThreadTs_replied_ModeFirst [OF mode later]
    by simp
qed

theorem first_mode_threading_witness:
  "fst (deliverWithOptionalStreaming neverFails
          ((testConfig ModeFirst)\<lparr>incomingThreadTs := Some ''100''\<rparr>)
          (textPayload ''first block'') Block initialRouter) = Inr ()
   \<and> nextThreadTs ((testConfig ModeFirst)\<lparr>incomingThreadTs := Some ''100''\<rparr>) initialRouter
       = Some ''100''
   \<and> sendsOf (calls (deliverAll neverFails
         ((testConfig ModeFirst)\<lparr>incomingThreadTs := Some ''100''\<rparr>)
         [(textPayload ''second block'', Block)]
         (snd (deliverWithOptionalStreaming neverFails
                 ((testConfig ModeFirst)\<lparr>incomingThreadTs := Some ''100''\<rparr>)
                 (textPayload ''first block'') Block initialRouter))))
       = [(textPayload ''second block'', None)]"
proof -
  let ?cfg = "(testConfig ModeFirst)\<lparr>incomingThreadTs := Some ''100''\<rparr>"
  let ?p = "textPayload ''first block''"
  have mode: "replyToMode ?cfg = ModeFirst" and incoming: "incomingThreadTs ?cfg = Some ''100''"
    by (simp_all add: testConfig_def)
  have fresh: "\<not> hasReplied initialRouter"
    by (simp add: initialRouter_def)
  have streamed: "deliverWithOptionalStreaming neverFails ?cfg ?p Block initialRouter
          = (Inr (),
             \<lparr>streamSession = Some \<lparr>streamer = 0, channel = ''C1'', threadTs = ''100'',
                                     stopped = False\<rparr>,
              streamFailed = False, streamedText = ''first block'', hasReplied = True,
              calls = [ChatStream ''C1'' ''100'', StreamerAppend 0 ''first block'']\<rparr>)"
    by (simp add: router_defs)
  have delivered: "fst (deliverWithOptionalStreaming neverFails ?cfg ?p Block initialRouter) = Inr ()"
    by (simp add: streamed)
  from first_mode_threading [of ?cfg "''100''" initialRouter neverFails ?p Block
      "[(textPayload ''second block'', Block)]", OF mode incoming fresh delivered]
  show ?thesis
    by (auto simp add: Let_def streamed)
qed

subsection \<open>A failing stop\<close>

text \<open>
  C9.  When the router stops its active session and \<^verbatim>\<open>streamer.stop\<close> throws, the router
  carries on with the session and the tracked text cleared and the streaming-failed flag
  set; from then on no stream is started and nothing is appended, and every later payload
  of the response is handed to a discrete send.
\<close>

theorem stop_failure_is_swallowed:
  assumes "streamSession st = Some s"
    and "\<not> stopped s"
    and "tp (calls st) (StreamerStop (streamer s) None)"
  shows "(let st1 = stopStreamIfActive tp st;
              fin = deliverAll tp cfg evs st1
          in st1 = st\<lparr>streamSession := None, streamFailed := True, streamedText := [],
                      calls := calls st @ [StreamerStop (streamer s) None]\<rparr>
             \<and> streamFailed fin
             \<and> startsOf (calls fin) = startsOf (calls st)
             \<and> appendsOf (calls fin) = appendsOf (calls st)
             \<and> map fst (sendsOf (calls fin)) = map fst (sendsOf (calls st)) @ map fst evs)"
proof -
  let ?st1 = "stopStreamIfActive tp st"
  have st1: "?st1 = st\<lparr>streamSession := None, streamFailed := True, streamedText := [],
                        calls := calls st @ [StreamerStop (streamer s) None]\<rparr>"
    using assms by (simp add: stopStreamIfActive_active)
  have "streamFailed ?st1" by (simp add: st1)
  from deliverAll_failed [OF this, of tp cfg evs] st1 show ?thesis
    unfolding Let_def by simp
qed

theorem stop_failure_is_swallowed_witness:
  "(let st1 = stopStreamIfActive stopFails streamingRouter;
        fin = deliverAll stopFails (testConfig ModeAll) [(textPayload ''second block'', Block)] st1
    in st1 = streamingRouter\<lparr>streamSession := None, streamFailed := True, streamedText := [],
               calls := [ChatStream ''C1'' ''123'', StreamerAppend 0 ''first block'',
                         StreamerStop 0 None]\<rparr>
       \<and> streamFailed fin
       \<and> startsOf (calls fin) = [(''C1'', ''123'')]
       \<and> appendsOf (calls fin) = [(0, ''first block'')]
       \<and> map fst (sendsOf (calls fin)) = [textPayload ''second block''])"
proof -
  have active: "streamSession streamingRouter = Some testSession"
    by (simp add: streamingRouter_def)
  have running: "\<not> stopped testSession"
    by (simp add: testSession_def)
  have throws: "stopFails (calls streamingRouter) (StreamerStop (streamer testSession) None)"
    by (simp add: stopFails_def)
  have ident: "streamer testSession = 0"
    by (simp add: testSession_def)
  have trace: "calls streamingRouter = [ChatStream ''C1'' ''123'', StreamerAppend 0 ''first block'']"
    by (simp add: streamingRouter_def)
  from stop_failure_is_swallowed [of streamingRouter testSession stopFails "testConfig ModeAll"
      "[(textPayload ''second block'', Block)]", OF active running throws]
  show ?thesis
    by (auto simp add: Let_def ident trace)
qed

end
